theory Spec2Isabelle
  imports Main "HOL-Library.Word"
begin

section \<open>The stats package: values and effects\<close>

text \<open>
  The package is an interface \<^verbatim>\<open>Client\<close> with four methods, a decorator
  \<^verbatim>\<open>prefixClient\<close>, a test double \<^verbatim>\<open>HookClient\<close>, the handle types
  \<^verbatim>\<open>multiEnder\<close> and \<^verbatim>\<open>noOpEnd\<close>, and four free functions that tolerate a nil
  client. None of it computes with its arguments; all of it is calls on other code.

  Effects are modelled by explicit state passing. The type \<open>'s\<close> is the state of everything
  outside the package (the backends, whatever the hooks touch). A Go call that returns
  nothing is a function \<open>'s \<Rightarrow> panic + 's\<close>; a call that returns a value \<open>'a\<close> is
  \<open>'s \<Rightarrow> panic + ('a \<times> 's)\<close>. \<open>Inl\<close> is a panic that unwinds the caller; the package never
  recovers, so a panic of a callee is the result of the caller.

  Code outside the package (a backend's methods, a hook, a backend's handle) is a function
  of this shape and is otherwise arbitrary; it is taken as given that it returns or panics
  (it does not run forever). When a callee panics, the state it leaves behind is not kept:
  the result is the panic alone.

  A \<^verbatim>\<open>float64\<close> is its 64-bit pattern: the package passes values on and never does
  arithmetic or comparison on them. A Go \<^verbatim>\<open>string\<close> is a byte sequence, and
  \<^verbatim>\<open>prefix+key\<close> is \<open>prefix @ key\<close>. The variadic \<^verbatim>\<open>tags ...string\<close> is the slice the
  callee receives, a \<open>string list\<close>.
\<close>

type_synonym float64 = "64 word"

datatype panic = NilDereference | ForeignPanic

type_synonym 's proc = "'s \<Rightarrow> panic + 's"

type_synonym ('s, 'a) call = "'s \<Rightarrow> panic + ('a \<times> 's)"

subsection \<open>Timer handles\<close>

text \<open>
  A value of the interface type \<^verbatim>\<open>interface { End() }\<close>: the nil interface value, the
  package's \<^verbatim>\<open>NoOpEnd\<close> (the only value of the field-less struct \<^verbatim>\<open>noOpEnd\<close>), a
  \<^verbatim>\<open>multiEnder\<close> (a slice of handles; the nil slice is the empty list), or a handle
  implemented outside the package, given by what its \<^verbatim>\<open>End\<close> does.
\<close>

datatype 's Ender =
    NilEnder
  | NoOpEnd
  | MultiEnder "'s Ender list"
  | ForeignEnder "'s proc"

type_synonym 's multiEnder = "'s Ender list"

subsection \<open>Clients\<close>

text \<open>An implementation of \<^verbatim>\<open>Client\<close> from outside the package: its four methods.\<close>

record 's ForeignClient =
  ForeignBumpAvg :: "string \<Rightarrow> float64 \<Rightarrow> string list \<Rightarrow> 's proc"
  ForeignBumpSum :: "string \<Rightarrow> float64 \<Rightarrow> string list \<Rightarrow> 's proc"
  ForeignBumpHistogram :: "string \<Rightarrow> float64 \<Rightarrow> string list \<Rightarrow> 's proc"
  ForeignBumpTime :: "string \<Rightarrow> string list \<Rightarrow> ('s, 's Ender) call"

text \<open>The struct \<^verbatim>\<open>HookClient\<close>: four function-typed fields, each nil (\<open>None\<close>) or set.\<close>

record 's HookClient =
  BumpAvgHook :: "(string \<Rightarrow> float64 \<Rightarrow> string list \<Rightarrow> 's proc) option"
  BumpSumHook :: "(string \<Rightarrow> float64 \<Rightarrow> string list \<Rightarrow> 's proc) option"
  BumpHistogramHook :: "(string \<Rightarrow> float64 \<Rightarrow> string list \<Rightarrow> 's proc) option"
  BumpTimeHook :: "(string \<Rightarrow> string list \<Rightarrow> ('s, 's Ender) call) option"

text \<open>
  A value of the interface type \<^verbatim>\<open>Client\<close>: the nil interface value, a
  \<^verbatim>\<open>*prefixClient\<close> (never a nil pointer: the type is unexported and only
  \<^verbatim>\<open>PrefixClient\<close> makes one), a \<^verbatim>\<open>*HookClient\<close> (\<open>None\<close> is the nil pointer, which
  is a non-nil interface value), or a foreign implementation. The struct
  \<^verbatim>\<open>prefixClient\<close> has the fields \<^verbatim>\<open>Prefixes\<close> and \<^verbatim>\<open>Client\<close>.
\<close>

datatype 's Client =
    NilClient
  | PrefixClientPtr "'s prefixClient"
  | HookClientPtr "'s HookClient option"
  | ForeignClientVal "'s ForeignClient"
and 's prefixClient =
    MkPrefixClient (Prefixes: "string list") (Client: "'s Client")

subsection \<open>The range loop\<close>

text \<open>
  \<^verbatim>\<open>for _, x := range xs { body }\<close> over a slice, with \<open>'l\<close> the state the body works on
  (the outside state, together with the loop's local variables when it has any). The
  elements are visited in index order; a panic of the body ends the loop.
\<close>

fun for_range :: "'a list \<Rightarrow> ('a \<Rightarrow> 'l \<Rightarrow> panic + 'l) \<Rightarrow> 'l \<Rightarrow> panic + 'l" where
  "for_range [] body l = Inr l"
| "for_range (x # xs) body l =
     (case body x l of Inl e \<Rightarrow> Inl e | Inr l' \<Rightarrow> for_range xs body l')"

subsection \<open>noOpEnd and multiEnder\<close>

definition noOpEnd_End :: "'s proc" where
  "noOpEnd_End s = Inr s"

text \<open>
  \<open>Ender_End e\<close> is the call \<^verbatim>\<open>e.End()\<close> on an interface value, dispatched on its
  dynamic type; on the nil interface value it panics. \<open>multiEnder_End\<close> is the loop
  \<^verbatim>\<open>for _, e := range m { e.End() }\<close>.
\<close>

fun Ender_End :: "'s Ender \<Rightarrow> 's proc"
  and multiEnder_End :: "'s multiEnder \<Rightarrow> 's proc"
where
  "Ender_End NilEnder s = Inl NilDereference"
| "Ender_End NoOpEnd s = noOpEnd_End s"
| "Ender_End (MultiEnder m) s = multiEnder_End m s"
| "Ender_End (ForeignEnder f) s = f s"
| "multiEnder_End [] s = Inr s"
| "multiEnder_End (e # m) s =
     (case Ender_End e s of Inl x \<Rightarrow> Inl x | Inr s' \<Rightarrow> multiEnder_End m s')"

subsection \<open>HookClient\<close>

definition HookClient_BumpAvg ::
  "'s HookClient \<Rightarrow> string \<Rightarrow> float64 \<Rightarrow> string list \<Rightarrow> 's proc" where
  "HookClient_BumpAvg c key val tags s =
     (case BumpAvgHook c of Some hook \<Rightarrow> hook key val tags s | None \<Rightarrow> Inr s)"

definition HookClient_BumpSum ::
  "'s HookClient \<Rightarrow> string \<Rightarrow> float64 \<Rightarrow> string list \<Rightarrow> 's proc" where
  "HookClient_BumpSum c key val tags s =
     (case BumpSumHook c of Some hook \<Rightarrow> hook key val tags s | None \<Rightarrow> Inr s)"

definition HookClient_BumpHistogram ::
  "'s HookClient \<Rightarrow> string \<Rightarrow> float64 \<Rightarrow> string list \<Rightarrow> 's proc" where
  "HookClient_BumpHistogram c key val tags s =
     (case BumpHistogramHook c of Some hook \<Rightarrow> hook key val tags s | None \<Rightarrow> Inr s)"

definition HookClient_BumpTime ::
  "'s HookClient \<Rightarrow> string \<Rightarrow> string list \<Rightarrow> ('s, 's Ender) call" where
  "HookClient_BumpTime c key tags s =
     (case BumpTimeHook c of Some hook \<Rightarrow> hook key tags s | None \<Rightarrow> Inr (NoOpEnd, s))"

subsection \<open>The interface methods and prefixClient\<close>

text \<open>
  \<open>Client_BumpAvg c\<close> is the call \<^verbatim>\<open>c.BumpAvg(...)\<close> on an interface value: nil panics, a
  nil \<^verbatim>\<open>*HookClient\<close> panics when the method reads its field, the others run their
  method. The body of a \<^verbatim>\<open>*prefixClient\<close> method is one range loop over
  \<^verbatim>\<open>p.Prefixes\<close> that calls the same method of \<^verbatim>\<open>p.Client\<close>.

  Here the struct is a value: its prefix list and its wrapped client are what they are for
  the whole call, as the specification has it (the Prefix List is immutable for the
  decorator's lifetime). What a callee can do to the struct and to the slice while a method
  runs is the subject of the store model further down.
\<close>

primrec Client_BumpAvg :: "'s Client \<Rightarrow> string \<Rightarrow> float64 \<Rightarrow> string list \<Rightarrow> 's proc"
  and prefixClient_BumpAvg ::
    "'s prefixClient \<Rightarrow> string \<Rightarrow> float64 \<Rightarrow> string list \<Rightarrow> 's proc"
where
  "Client_BumpAvg NilClient key val tags s = Inl NilDereference"
| "Client_BumpAvg (PrefixClientPtr p) key val tags s = prefixClient_BumpAvg p key val tags s"
| "Client_BumpAvg (HookClientPtr c) key val tags s =
     (case c of
        None \<Rightarrow> Inl NilDereference
      | Some h \<Rightarrow> HookClient_BumpAvg h key val tags s)"
| "Client_BumpAvg (ForeignClientVal b) key val tags s = ForeignBumpAvg b key val tags s"
| "prefixClient_BumpAvg (MkPrefixClient prefixes client) key val tags s =
     for_range prefixes (\<lambda>prefix. Client_BumpAvg client (prefix @ key) val tags) s"

primrec Client_BumpSum :: "'s Client \<Rightarrow> string \<Rightarrow> float64 \<Rightarrow> string list \<Rightarrow> 's proc"
  and prefixClient_BumpSum ::
    "'s prefixClient \<Rightarrow> string \<Rightarrow> float64 \<Rightarrow> string list \<Rightarrow> 's proc"
where
  "Client_BumpSum NilClient key val tags s = Inl NilDereference"
| "Client_BumpSum (PrefixClientPtr p) key val tags s = prefixClient_BumpSum p key val tags s"
| "Client_BumpSum (HookClientPtr c) key val tags s =
     (case c of
        None \<Rightarrow> Inl NilDereference
      | Some h \<Rightarrow> HookClient_BumpSum h key val tags s)"
| "Client_BumpSum (ForeignClientVal b) key val tags s = ForeignBumpSum b key val tags s"
| "prefixClient_BumpSum (MkPrefixClient prefixes client) key val tags s =
     for_range prefixes (\<lambda>prefix. Client_BumpSum client (prefix @ key) val tags) s"

primrec Client_BumpHistogram :: "'s Client \<Rightarrow> string \<Rightarrow> float64 \<Rightarrow> string list \<Rightarrow> 's proc"
  and prefixClient_BumpHistogram ::
    "'s prefixClient \<Rightarrow> string \<Rightarrow> float64 \<Rightarrow> string list \<Rightarrow> 's proc"
where
  "Client_BumpHistogram NilClient key val tags s = Inl NilDereference"
| "Client_BumpHistogram (PrefixClientPtr p) key val tags s =
     prefixClient_BumpHistogram p key val tags s"
| "Client_BumpHistogram (HookClientPtr c) key val tags s =
     (case c of
        None \<Rightarrow> Inl NilDereference
      | Some h \<Rightarrow> HookClient_BumpHistogram h key val tags s)"
| "Client_BumpHistogram (ForeignClientVal b) key val tags s =
     ForeignBumpHistogram b key val tags s"
| "prefixClient_BumpHistogram (MkPrefixClient prefixes client) key val tags s =
     for_range prefixes (\<lambda>prefix. Client_BumpHistogram client (prefix @ key) val tags) s"

text \<open>
  \<^verbatim>\<open>BumpTime\<close> of the decorator: the local \<^verbatim>\<open>m\<close> starts as the nil slice and each
  iteration appends the handle the wrapped client returned. The loop works on the pair of
  \<^verbatim>\<open>m\<close> and the outside state. The result is \<^verbatim>\<open>m\<close> as an interface value, which is
  not the nil interface value even when the slice is nil.
\<close>

primrec Client_BumpTime :: "'s Client \<Rightarrow> string \<Rightarrow> string list \<Rightarrow> ('s, 's Ender) call"
  and prefixClient_BumpTime ::
    "'s prefixClient \<Rightarrow> string \<Rightarrow> string list \<Rightarrow> ('s, 's Ender) call"
where
  "Client_BumpTime NilClient key tags s = Inl NilDereference"
| "Client_BumpTime (PrefixClientPtr p) key tags s = prefixClient_BumpTime p key tags s"
| "Client_BumpTime (HookClientPtr c) key tags s =
     (case c of
        None \<Rightarrow> Inl NilDereference
      | Some h \<Rightarrow> HookClient_BumpTime h key tags s)"
| "Client_BumpTime (ForeignClientVal b) key tags s = ForeignBumpTime b key tags s"
| "prefixClient_BumpTime (MkPrefixClient prefixes client) key tags s =
     (case for_range prefixes
             (\<lambda>prefix (m, s1).
                case Client_BumpTime client (prefix @ key) tags s1 of
                  Inl e \<Rightarrow> Inl e
                | Inr (h, s2) \<Rightarrow> Inr (m @ [h], s2))
             ([], s) of
        Inl e \<Rightarrow> Inl e
      | Inr (m, s') \<Rightarrow> Inr (MultiEnder m, s'))"

definition PrefixClient :: "string list \<Rightarrow> 's Client \<Rightarrow> 's Client" where
  "PrefixClient prefixes client = PrefixClientPtr (MkPrefixClient prefixes client)"

subsection \<open>The free functions\<close>

text \<open>
  \<^verbatim>\<open>if c != nil\<close> compares the interface value with nil: only \<open>NilClient\<close> is nil, a nil
  \<^verbatim>\<open>*HookClient\<close> inside the interface is not.
\<close>

definition BumpAvg :: "'s Client \<Rightarrow> string \<Rightarrow> float64 \<Rightarrow> string list \<Rightarrow> 's proc" where
  "BumpAvg c key val tags s =
     (case c of NilClient \<Rightarrow> Inr s | _ \<Rightarrow> Client_BumpAvg c key val tags s)"

definition BumpSum :: "'s Client \<Rightarrow> string \<Rightarrow> float64 \<Rightarrow> string list \<Rightarrow> 's proc" where
  "BumpSum c key val tags s =
     (case c of NilClient \<Rightarrow> Inr s | _ \<Rightarrow> Client_BumpSum c key val tags s)"

definition BumpHistogram :: "'s Client \<Rightarrow> string \<Rightarrow> float64 \<Rightarrow> string list \<Rightarrow> 's proc" where
  "BumpHistogram c key val tags s =
     (case c of NilClient \<Rightarrow> Inr s | _ \<Rightarrow> Client_BumpHistogram c key val tags s)"

definition BumpTime :: "'s Client \<Rightarrow> string \<Rightarrow> string list \<Rightarrow> ('s, 's Ender) call" where
  "BumpTime c key tags s =
     (case c of NilClient \<Rightarrow> Inr (NoOpEnd, s) | _ \<Rightarrow> Client_BumpTime c key tags s)"

section \<open>Vocabulary of the properties\<close>

text \<open>
  \<open>call_seq fs\<close> performs the calls \<open>fs\<close> one after another, each on the state the one
  before left; a call that panics is the last. \<open>collect_seq\<close> does the same for calls
  that return a value and gathers the values in call order.
\<close>

fun call_seq :: "'s proc list \<Rightarrow> 's proc" where
  "call_seq [] s = Inr s"
| "call_seq (f # fs) s = (case f s of Inl e \<Rightarrow> Inl e | Inr s' \<Rightarrow> call_seq fs s')"

fun collect_seq :: "('s, 'a) call list \<Rightarrow> ('s, 'a list) call" where
  "collect_seq [] s = Inr ([], s)"
| "collect_seq (f # fs) s =
     (case f s of
        Inl e \<Rightarrow> Inl e
      | Inr (a, s') \<Rightarrow>
          (case collect_seq fs s' of
             Inl e \<Rightarrow> Inl e
           | Inr (as, s'') \<Rightarrow> Inr (a # as, s'')))"

text \<open>
  A backend that only keeps a log: each method appends the call it received, with its
  arguments, to the log, and \<^verbatim>\<open>BumpTime\<close> returns a handle whose \<^verbatim>\<open>End\<close> appends
  the key the timer was started with. The state is the log.
\<close>

datatype event =
    BumpAvgCall string float64 "string list"
  | BumpSumCall string float64 "string list"
  | BumpHistogramCall string float64 "string list"
  | BumpTimeCall string "string list"
  | EndCall string

definition logEnder :: "string \<Rightarrow> event list Ender" where
  "logEnder key = ForeignEnder (\<lambda>log. Inr (log @ [EndCall key]))"

definition logClient :: "event list ForeignClient" where
  "logClient =
     \<lparr> ForeignBumpAvg = (\<lambda>key val tags log. Inr (log @ [BumpAvgCall key val tags])),
       ForeignBumpSum = (\<lambda>key val tags log. Inr (log @ [BumpSumCall key val tags])),
       ForeignBumpHistogram =
         (\<lambda>key val tags log. Inr (log @ [BumpHistogramCall key val tags])),
       ForeignBumpTime =
         (\<lambda>key tags log. Inr (logEnder key, log @ [BumpTimeCall key tags])) \<rparr>"

text \<open>
  Hook clients used as concrete inputs: the zero value \<^verbatim>\<open>HookClient{}\<close>, one whose four
  hooks are the methods of the logging backend, and one whose only hook is a
  \<^verbatim>\<open>BumpTimeHook\<close> that returns the nil interface value.
\<close>

definition noHooks :: "'s HookClient" where
  "noHooks =
     \<lparr> BumpAvgHook = None, BumpSumHook = None, BumpHistogramHook = None,
       BumpTimeHook = None \<rparr>"

definition logHooks :: "event list HookClient" where
  "logHooks =
     \<lparr> BumpAvgHook = Some (ForeignBumpAvg logClient),
       BumpSumHook = Some (ForeignBumpSum logClient),
       BumpHistogramHook = Some (ForeignBumpHistogram logClient),
       BumpTimeHook = Some (ForeignBumpTime logClient) \<rparr>"

definition nilTimeHook :: "string \<Rightarrow> string list \<Rightarrow> ('s, 's Ender) call" where
  "nilTimeHook key tags s = Inr (NilEnder, s)"

definition nilTimeHooks :: "'s HookClient" where
  "nilTimeHooks = noHooks \<lparr> BumpTimeHook := Some nilTimeHook \<rparr>"


section \<open>The decorator in a store\<close>

text \<open>
  \<^verbatim>\<open>PrefixClient\<close> puts the slice it is given into the struct as it is: the struct
  and the caller share the backing array, and the fields \<^verbatim>\<open>Prefixes\<close> and
  \<^verbatim>\<open>Client\<close> are exported. To say what a callee can and cannot change while a method
  of the decorator runs, the struct and the backing array are placed in a store that the
  callees work on too.

  A slice is the address of its backing array and its length. A world holds the backing
  arrays (address and index to element), the \<^verbatim>\<open>prefixClient\<close> structs (address to the
  two fields) and the state outside the package. The \<^verbatim>\<open>Client\<close> field holds a value of
  a type \<open>'c\<close> that a function \<open>iface\<close>, given to each method, reads as the interface
  value it stands for: a world cannot hold functions on worlds, and the wrapped client is
  one.
\<close>

record slice =
  base :: nat
  len :: nat

record ('c, 's) world =
  arrays :: "nat \<Rightarrow> nat \<Rightarrow> string"
  structs :: "nat \<Rightarrow> slice \<times> 'c"
  outside :: 's

text \<open>\<^verbatim>\<open>p.Prefixes\<close>, \<^verbatim>\<open>p.Client\<close> and the elements of a slice, read in a world.\<close>

definition Prefixes_at :: "('c, 's) world \<Rightarrow> nat \<Rightarrow> slice" where
  "Prefixes_at w p = fst (structs w p)"

definition Client_at :: "('c, 's) world \<Rightarrow> nat \<Rightarrow> 'c" where
  "Client_at w p = snd (structs w p)"

definition elems :: "('c, 's) world \<Rightarrow> slice \<Rightarrow> string list" where
  "elems w sl = map (arrays w (base sl)) [0..<len sl]"

text \<open>
  \<^verbatim>\<open>&prefixClient{Prefixes: prefixes, Client: client}\<close> at the address \<open>p\<close>: the slice
  header is stored, no element is copied.
\<close>

definition PrefixClient_at ::
  "nat \<Rightarrow> slice \<Rightarrow> 'c \<Rightarrow> ('c, 's) world \<Rightarrow> ('c, 's) world" where
  "PrefixClient_at p prefixes client w = w\<lparr>structs := (structs w)(p := (prefixes, client))\<rparr>"

text \<open>
  The methods. The range expression \<^verbatim>\<open>p.Prefixes\<close> is evaluated once, before the loop;
  iteration \<open>i\<close> reads element \<open>i\<close> of that slice from the backing array as it is then,
  reads \<^verbatim>\<open>p.Client\<close> as it is then, and calls it.
\<close>

definition prefixClient_at_BumpAvg ::
  "('c \<Rightarrow> ('c, 's) world Client) \<Rightarrow> nat \<Rightarrow> string \<Rightarrow> float64 \<Rightarrow> string list \<Rightarrow>
   ('c, 's) world proc" where
  "prefixClient_at_BumpAvg iface p key val tags w =
     (let prefixes = Prefixes_at w p in
      for_range [0..<len prefixes]
        (\<lambda>i w1. Client_BumpAvg (iface (Client_at w1 p))
                   (arrays w1 (base prefixes) i @ key) val tags w1)
        w)"

definition prefixClient_at_BumpSum ::
  "('c \<Rightarrow> ('c, 's) world Client) \<Rightarrow> nat \<Rightarrow> string \<Rightarrow> float64 \<Rightarrow> string list \<Rightarrow>
   ('c, 's) world proc" where
  "prefixClient_at_BumpSum iface p key val tags w =
     (let prefixes = Prefixes_at w p in
      for_range [0..<len prefixes]
        (\<lambda>i w1. Client_BumpSum (iface (Client_at w1 p))
                   (arrays w1 (base prefixes) i @ key) val tags w1)
        w)"

definition prefixClient_at_BumpHistogram ::
  "('c \<Rightarrow> ('c, 's) world Client) \<Rightarrow> nat \<Rightarrow> string \<Rightarrow> float64 \<Rightarrow> string list \<Rightarrow>
   ('c, 's) world proc" where
  "prefixClient_at_BumpHistogram iface p key val tags w =
     (let prefixes = Prefixes_at w p in
      for_range [0..<len prefixes]
        (\<lambda>i w1. Client_BumpHistogram (iface (Client_at w1 p))
                   (arrays w1 (base prefixes) i @ key) val tags w1)
        w)"

definition prefixClient_at_BumpTime ::
  "('c \<Rightarrow> ('c, 's) world Client) \<Rightarrow> nat \<Rightarrow> string \<Rightarrow> string list \<Rightarrow>
   (('c, 's) world, ('c, 's) world Ender) call" where
  "prefixClient_at_BumpTime iface p key tags w =
     (let prefixes = Prefixes_at w p in
      case for_range [0..<len prefixes]
             (\<lambda>i (m, w1).
                case Client_BumpTime (iface (Client_at w1 p))
                       (arrays w1 (base prefixes) i @ key) tags w1 of
                  Inl e \<Rightarrow> Inl e
                | Inr (h, w2) \<Rightarrow> Inr (m @ [h], w2))
             ([], w) of
        Inl e \<Rightarrow> Inl e
      | Inr (m, w') \<Rightarrow> Inr (MultiEnder m, w'))"

text \<open>
  The decorator's own state in a world: the slice header, the elements of the slice and
  the \<^verbatim>\<open>Client\<close> field.
\<close>

definition decorator_state :: "('c, 's) world \<Rightarrow> nat \<Rightarrow> slice \<times> string list \<times> 'c" where
  "decorator_state w p = (Prefixes_at w p, elems w (Prefixes_at w p), Client_at w p)"








section \<open>Shared lemmas\<close>

lemma for_range_call_seq: "for_range xs body s = call_seq (map body xs) s"
  by (induction xs arbitrary: s) (simp_all split: sum.splits)

lemma map_by_index: "map (\<lambda>i. f (xs ! i)) [0..<length xs] = map f xs"
  by (simp add: map_equality_iff)

lemma call_seq_append:
  "call_seq (fs @ gs) s = (case call_seq fs s of Inl e \<Rightarrow> Inl e | Inr s' \<Rightarrow> call_seq gs s')"
  by (induction fs arbitrary: s) (simp_all split: sum.splits)

lemma call_seq_concat: "call_seq (concat fss) s = call_seq (map call_seq fss) s"
  by (induction fss arbitrary: s) (simp_all add: call_seq_append split: sum.splits)

lemma call_seq_log:
  "call_seq (map (\<lambda>x log. Inr (log @ [ev x])) xs) log = Inr (log @ map ev xs)"
  by (induction xs arbitrary: log) simp_all

lemma Client_BumpAvg_PrefixClient:
  "Client_BumpAvg (PrefixClient P c) k v t s =
     call_seq (map (\<lambda>prefix. Client_BumpAvg c (prefix @ k) v t) P) s"
  by (simp add: PrefixClient_def for_range_call_seq split: sum.splits)

lemma Client_BumpSum_PrefixClient:
  "Client_BumpSum (PrefixClient P c) k v t s =
     call_seq (map (\<lambda>prefix. Client_BumpSum c (prefix @ k) v t) P) s"
  by (simp add: PrefixClient_def for_range_call_seq split: sum.splits)

lemma Client_BumpHistogram_PrefixClient:
  "Client_BumpHistogram (PrefixClient P c) k v t s =
     call_seq (map (\<lambda>prefix. Client_BumpHistogram c (prefix @ k) v t) P) s"
  by (simp add: PrefixClient_def for_range_call_seq split: sum.splits)

lemma logClient_simps:
  "Client_BumpAvg (ForeignClientVal logClient) k v t =
     (\<lambda>log. Inr (log @ [BumpAvgCall k v t]))"
  "Client_BumpSum (ForeignClientVal logClient) k v t =
     (\<lambda>log. Inr (log @ [BumpSumCall k v t]))"
  "Client_BumpHistogram (ForeignClientVal logClient) k v t =
     (\<lambda>log. Inr (log @ [BumpHistogramCall k v t]))"
  "Client_BumpTime (ForeignClientVal logClient) k t =
     (\<lambda>log. Inr (logEnder k, log @ [BumpTimeCall k t]))"
  by (simp_all add: logClient_def fun_eq_iff)



lemma for_range_collect_seq:
  "for_range xs
     (\<lambda>x (m, s1). case f x s1 of Inl e \<Rightarrow> Inl e | Inr (h, s2) \<Rightarrow> Inr (m @ [h], s2))
     (m0, s) =
   (case collect_seq (map f xs) s of
      Inl e \<Rightarrow> Inl e
    | Inr (hs, s') \<Rightarrow> Inr (m0 @ hs, s'))"
  by (induction xs arbitrary: m0 s) (simp_all split: sum.splits prod.splits)

lemma collect_seq_length: "collect_seq fs s = Inr (as, s') \<Longrightarrow> length as = length fs"
  by (induction fs arbitrary: s as) (auto split: sum.splits prod.splits)

lemma collect_seq_log:
  "collect_seq (map (\<lambda>x log. Inr (h x, log @ [ev x])) xs) log =
     Inr (map h xs, log @ map ev xs)"
  by (induction xs arbitrary: log) simp_all

lemma Client_BumpTime_PrefixClient:
  "Client_BumpTime (PrefixClient P c) k t s =
     (case collect_seq (map (\<lambda>prefix. Client_BumpTime c (prefix @ k) t) P) s of
        Inl e \<Rightarrow> Inl e
      | Inr (hs, s') \<Rightarrow> Inr (MultiEnder hs, s'))"
  by (simp add: PrefixClient_def
      for_range_collect_seq [of P "\<lambda>prefix. Client_BumpTime c (prefix @ k) t" "[]" s]
      split: sum.splits prod.splits)

lemma Client_BumpAvg_PrefixClient_fun:
  "Client_BumpAvg (PrefixClient P c) k v t =
     call_seq (map (\<lambda>prefix. Client_BumpAvg c (prefix @ k) v t) P)"
  by (rule ext) (rule Client_BumpAvg_PrefixClient)

lemma Client_BumpSum_PrefixClient_fun:
  "Client_BumpSum (PrefixClient P c) k v t =
     call_seq (map (\<lambda>prefix. Client_BumpSum c (prefix @ k) v t) P)"
  by (rule ext) (rule Client_BumpSum_PrefixClient)

lemma Client_BumpHistogram_PrefixClient_fun:
  "Client_BumpHistogram (PrefixClient P c) k v t =
     call_seq (map (\<lambda>prefix. Client_BumpHistogram c (prefix @ k) v t) P)"
  by (rule ext) (rule Client_BumpHistogram_PrefixClient)

lemma nested_by_index:
  "concat (map (\<lambda>i. map (\<lambda>j. f (xs ! i) (ys ! j)) [0..<length ys]) [0..<length xs]) =
   concat (map (\<lambda>x. map (f x) ys) xs)"
proof -
  have "map (\<lambda>i. map (\<lambda>j. f (xs ! i) (ys ! j)) [0..<length ys]) [0..<length xs] =
        map (\<lambda>i. map (f (xs ! i)) ys) [0..<length xs]"
    by (simp add: map_by_index)
  also have "\<dots> = map (\<lambda>x. map (f x) ys) xs"
    by (rule map_by_index)
  finally show ?thesis by simp
qed

lemma call_seq_nested:
  "call_seq (map (\<lambda>x. call_seq (map (f x) ys)) xs) s =
   call_seq (concat (map (\<lambda>x. map (f x) ys) xs)) s"
  by (simp add: call_seq_concat comp_def)

lemma length_nested:
  "length (concat (map (\<lambda>i. map (g i) [0..<n]) [0..<m])) = m * n"
  by (simp add: length_concat comp_def sum_list_triv)

lemma call_seq_log_nested:
  "call_seq (concat (map (\<lambda>x. map (\<lambda>y log. Inr (log @ [ev x y])) ys) xs)) log =
   Inr (log @ concat (map (\<lambda>x. map (ev x) ys) xs))"
proof (induction xs arbitrary: log)
  case Nil
  show ?case by simp
next
  case (Cons x xs)
  show ?case
    by (simp add: call_seq_append call_seq_log [of "ev x"] Cons.IH)
qed

lemma call_seq_total:
  "call_seq (map (\<lambda>f s. Inr (f s)) fs) s = Inr (fold (\<lambda>f. f) fs s)"
  by (induction fs arbitrary: s) simp_all




lemma for_range_sim:
  assumes same: "\<And>x l. x \<in> set xs \<Longrightarrow> I l \<Longrightarrow> body x l = body' (f x) l"
    and step: "\<And>x l l'. I l \<Longrightarrow> body x l = Inr l' \<Longrightarrow> I l'"
  shows "I l \<Longrightarrow> for_range xs body l = for_range (map f xs) body' l"
  using same
proof (induction xs arbitrary: l)
  case Nil
  then show ?case by simp
next
  case (Cons x xs)
  have eq: "body x l = body' (f x) l"
    using Cons.prems by simp
  show ?case
  proof (cases "body x l")
    case (Inl e)
    with eq have "body' (f x) l = Inl e" by simp
    with Inl show ?thesis by simp
  next
    case (Inr l1)
    from step [OF Cons.prems(1) Inr] have "I l1" .
    then have "for_range xs body l1 = for_range (map f xs) body' l1"
      using Cons.prems(2) by (intro Cons.IH) simp_all
    moreover from Inr eq have "body' (f x) l = Inr l1" by simp
    ultimately show ?thesis using Inr by simp
  qed
qed

lemma decorator_state_eqD:
  assumes "decorator_state w1 p = decorator_state w p"
  shows "Prefixes_at w1 p = Prefixes_at w p"
    and "Client_at w1 p = Client_at w p"
    and "i < len (Prefixes_at w p) \<Longrightarrow>
           arrays w1 (base (Prefixes_at w p)) i = arrays w (base (Prefixes_at w p)) i"
proof -
  from assms show hdr: "Prefixes_at w1 p = Prefixes_at w p"
    and "Client_at w1 p = Client_at w p"
    by (simp_all add: decorator_state_def)
  from assms hdr have "elems w1 (Prefixes_at w p) = elems w (Prefixes_at w p)"
    by (simp add: decorator_state_def)
  then show "arrays w1 (base (Prefixes_at w p)) i = arrays w (base (Prefixes_at w p)) i"
    if "i < len (Prefixes_at w p)"
    using that by (simp add: elems_def)
qed



lemma sim_bump:
  fixes w :: "('c, 's) world"
  assumes H: "\<And>key' w1 w2. F (iface (Client_at w p)) key' w1 = Inr w2
                \<Longrightarrow> decorator_state w2 p = decorator_state w1 p"
  shows "for_range [0..<len (Prefixes_at w p)]
           (\<lambda>i w1. F (iface (Client_at w1 p))
                      (arrays w1 (base (Prefixes_at w p)) i @ key) w1) w =
         for_range (elems w (Prefixes_at w p))
           (\<lambda>prefix. F (iface (Client_at w p)) (prefix @ key)) w"
proof -
  let ?I = "\<lambda>w1. decorator_state w1 p = decorator_state w p"
  have "for_range [0..<len (Prefixes_at w p)]
           (\<lambda>i w1. F (iface (Client_at w1 p))
                      (arrays w1 (base (Prefixes_at w p)) i @ key) w1) w =
        for_range (map (arrays w (base (Prefixes_at w p))) [0..<len (Prefixes_at w p)])
           (\<lambda>prefix. F (iface (Client_at w p)) (prefix @ key)) w"
  proof (rule for_range_sim [where I = ?I])
    show "?I w" by simp
  next
    fix x and l :: "('c, 's) world"
    assume "x \<in> set [0..<len (Prefixes_at w p)]" and inv: "?I l"
    then have "x < len (Prefixes_at w p)" by simp
    then have "arrays l (base (Prefixes_at w p)) x = arrays w (base (Prefixes_at w p)) x"
      using inv by (intro decorator_state_eqD)
    moreover from inv have "Client_at l p = Client_at w p"
      by (rule decorator_state_eqD)
    ultimately
    show "F (iface (Client_at l p)) (arrays l (base (Prefixes_at w p)) x @ key) l =
      F (iface (Client_at w p)) (arrays w (base (Prefixes_at w p)) x @ key) l"
      by simp
  next
    fix x and l l' :: "('c, 's) world"
    assume inv: "?I l"
      and b: "F (iface (Client_at l p)) (arrays l (base (Prefixes_at w p)) x @ key) l = Inr l'"
    from inv have "Client_at l p = Client_at w p" by (rule decorator_state_eqD)
    with b H have "decorator_state l' p = decorator_state l p" by simp
    with inv show "?I l'" by simp
  qed
  then show ?thesis by (simp add: elems_def)
qed

text \<open>
  When the wrapped client keeps the decorator's state, the method in the store is the
  method of the struct as a value, with the prefix list and the client read before the
  call.
\<close>

lemma prefixClient_at_BumpSum_value:
  assumes "\<And>key' w1 w2. Client_BumpSum (iface (Client_at w p)) key' val tags w1 = Inr w2
                \<Longrightarrow> decorator_state w2 p = decorator_state w1 p"
  shows "prefixClient_at_BumpSum iface p key val tags w =
         prefixClient_BumpSum
           (MkPrefixClient (elems w (Prefixes_at w p)) (iface (Client_at w p))) key val tags w"
  using sim_bump [where F = "\<lambda>c k. Client_BumpSum c k val tags", OF assms]
  by (simp add: prefixClient_at_BumpSum_def Let_def)

lemma prefixClient_at_BumpAvg_value:
  assumes "\<And>key' w1 w2. Client_BumpAvg (iface (Client_at w p)) key' val tags w1 = Inr w2
                \<Longrightarrow> decorator_state w2 p = decorator_state w1 p"
  shows "prefixClient_at_BumpAvg iface p key val tags w =
         prefixClient_BumpAvg
           (MkPrefixClient (elems w (Prefixes_at w p)) (iface (Client_at w p))) key val tags w"
  using sim_bump [where F = "\<lambda>c k. Client_BumpAvg c k val tags", OF assms]
  by (simp add: prefixClient_at_BumpAvg_def Let_def)

lemma prefixClient_at_BumpHistogram_value:
  assumes "\<And>key' w1 w2. Client_BumpHistogram (iface (Client_at w p)) key' val tags w1 = Inr w2
                \<Longrightarrow> decorator_state w2 p = decorator_state w1 p"
  shows "prefixClient_at_BumpHistogram iface p key val tags w =
         prefixClient_BumpHistogram
           (MkPrefixClient (elems w (Prefixes_at w p)) (iface (Client_at w p))) key val tags w"
  using sim_bump [where F = "\<lambda>c k. Client_BumpHistogram c k val tags", OF assms]
  by (simp add: prefixClient_at_BumpHistogram_def Let_def)

lemma prefixClient_at_BumpTime_value:
  fixes w :: "('c, 's) world"
  assumes H: "\<And>key' w1 h w2. Client_BumpTime (iface (Client_at w p)) key' tags w1 = Inr (h, w2)
                \<Longrightarrow> decorator_state w2 p = decorator_state w1 p"
  shows "prefixClient_at_BumpTime iface p key tags w =
         prefixClient_BumpTime
           (MkPrefixClient (elems w (Prefixes_at w p)) (iface (Client_at w p))) key tags w"
proof -
  let ?a = "base (Prefixes_at w p)"
  let ?I = "\<lambda>(m :: ('c, 's) world Ender list, w1 :: ('c, 's) world).
              decorator_state w1 p = decorator_state w p"
  let ?body = "\<lambda>i (m, w1).
                case Client_BumpTime (iface (Client_at w1 p)) (arrays w1 ?a i @ key) tags w1 of
                  Inl e \<Rightarrow> Inl e
                | Inr (h, w2) \<Rightarrow> Inr (m @ [h], w2)"
  let ?body' = "\<lambda>prefix (m, w1).
                case Client_BumpTime (iface (Client_at w p)) (prefix @ key) tags w1 of
                  Inl e \<Rightarrow> Inl e
                | Inr (h, w2) \<Rightarrow> Inr (m @ [h], w2)"
  have "for_range [0..<len (Prefixes_at w p)] ?body ([], w) =
        for_range (map (arrays w ?a) [0..<len (Prefixes_at w p)]) ?body' ([], w)"
  proof (rule for_range_sim [where I = ?I])
    show "?I ([], w)" by simp
  next
    fix x and l :: "('c, 's) world Ender list \<times> ('c, 's) world"
    assume x: "x \<in> set [0..<len (Prefixes_at w p)]" and inv: "?I l"
    obtain m1 w1 where l: "l = (m1, w1)" by (cases l)
    from inv l have st: "decorator_state w1 p = decorator_state w p" by simp
    from x have "x < len (Prefixes_at w p)" by simp
    then have "arrays w1 ?a x = arrays w ?a x"
      using st by (intro decorator_state_eqD)
    moreover from st have "Client_at w1 p = Client_at w p"
      by (rule decorator_state_eqD)
    ultimately show "?body x l = ?body' (arrays w ?a x) l"
      using l by simp
  next
    fix x and l l' :: "('c, 's) world Ender list \<times> ('c, 's) world"
    assume inv: "?I l" and b: "?body x l = Inr l'"
    obtain m1 w1 where l: "l = (m1, w1)" by (cases l)
    obtain m2 w2 where l': "l' = (m2, w2)" by (cases l')
    from inv l have st: "decorator_state w1 p = decorator_state w p" by simp
    then have c: "Client_at w1 p = Client_at w p" by (rule decorator_state_eqD)
    from b l l' obtain h where
      "Client_BumpTime (iface (Client_at w1 p)) (arrays w1 ?a x @ key) tags w1 = Inr (h, w2)"
      by (auto split: sum.splits prod.splits)
    with c H have "decorator_state w2 p = decorator_state w1 p" by simp
    with st l' show "?I l'" by simp
  qed
  then show ?thesis
    by (simp add: prefixClient_at_BumpTime_def Let_def elems_def)
qed

lemma PrefixClient_at_state:
  "decorator_state (PrefixClient_at p prefixes client w) p =
     (prefixes, elems w prefixes, client)"
  by (simp add: PrefixClient_at_def decorator_state_def Prefixes_at_def Client_at_def elems_def)

text \<open>
  A nil client inside a decorator panics when its method is called, and the panic ends the
  loop that made the call.
\<close>

lemma prefixClient_nil_wrapped:
  "Client_BumpSum (PrefixClient [''a.''] NilClient) ''x'' 1 [] s = Inl NilDereference"
  by (simp add: PrefixClient_def)

text \<open>
  The scenario of the specification: prefixes \<^verbatim>\<open>["svc.", "env.prod."]\<close>, key
  \<^verbatim>\<open>"requests"\<close>, value 3.0 (bit pattern \<^verbatim>\<open>0x4008000000000000\<close>), on the logging
  backend with an empty log.
\<close>

lemma spec_scenario:
  "Client_BumpSum (PrefixClient [''svc.'', ''env.prod.''] (ForeignClientVal logClient))
     ''requests'' 0x4008000000000000 [] [] =
   Inr [BumpSumCall ''svc.requests'' 0x4008000000000000 [],
        BumpSumCall ''env.prod.requests'' 0x4008000000000000 []]"
  by (simp add: PrefixClient_def logClient_def)

section \<open>The prefixing decorator fans a bump out\<close>

text \<open>
  C1. One \<^verbatim>\<open>BumpSum\<close> (likewise \<^verbatim>\<open>BumpAvg\<close>, \<^verbatim>\<open>BumpHistogram\<close>) through the
  decorator made from the prefixes \<open>P\<close> and the client \<open>c\<close> is the same computation as
  the \<open>length P\<close> calls of that method on \<open>c\<close> with the keys \<open>P ! 0 @ k\<close>, \<open>P ! 1 @ k\<close>,
  ... in this order, each with the value \<open>v\<close> and the tags \<open>t\<close> it was given. This holds
  for every wrapped client and every prefix list; a call that panics ends the sequence on
  both sides. On the logging backend the log grows by exactly these \<open>length P\<close> entries.
\<close>

theorem prefix_bump_fans_out:
  "Client_BumpSum (PrefixClient P c) k v t s =
     call_seq (map (\<lambda>i. Client_BumpSum c (P ! i @ k) v t) [0..<length P]) s
   \<and> Client_BumpAvg (PrefixClient P c) k v t s =
     call_seq (map (\<lambda>i. Client_BumpAvg c (P ! i @ k) v t) [0..<length P]) s
   \<and> Client_BumpHistogram (PrefixClient P c) k v t s =
     call_seq (map (\<lambda>i. Client_BumpHistogram c (P ! i @ k) v t) [0..<length P]) s
   \<and> Client_BumpSum (PrefixClient P (ForeignClientVal logClient)) k v t log =
     Inr (log @ map (\<lambda>i. BumpSumCall (P ! i @ k) v t) [0..<length P])
   \<and> Client_BumpAvg (PrefixClient P (ForeignClientVal logClient)) k v t log =
     Inr (log @ map (\<lambda>i. BumpAvgCall (P ! i @ k) v t) [0..<length P])
   \<and> Client_BumpHistogram (PrefixClient P (ForeignClientVal logClient)) k v t log =
     Inr (log @ map (\<lambda>i. BumpHistogramCall (P ! i @ k) v t) [0..<length P])"
proof -
  have idx: "\<And>f. map (\<lambda>i. f (P ! i)) [0..<length P] = map f P"
    by (rule map_by_index)
  have gen:
    "Client_BumpSum (PrefixClient P c) k v t s =
       call_seq (map (\<lambda>i. Client_BumpSum c (P ! i @ k) v t) [0..<length P]) s"
    "Client_BumpAvg (PrefixClient P c) k v t s =
       call_seq (map (\<lambda>i. Client_BumpAvg c (P ! i @ k) v t) [0..<length P]) s"
    "Client_BumpHistogram (PrefixClient P c) k v t s =
       call_seq (map (\<lambda>i. Client_BumpHistogram c (P ! i @ k) v t) [0..<length P]) s"
    by (simp_all only: Client_BumpSum_PrefixClient Client_BumpAvg_PrefixClient
        Client_BumpHistogram_PrefixClient
        idx [of "\<lambda>prefix. Client_BumpSum c (prefix @ k) v t"]
        idx [of "\<lambda>prefix. Client_BumpAvg c (prefix @ k) v t"]
        idx [of "\<lambda>prefix. Client_BumpHistogram c (prefix @ k) v t"])
  have logs:
    "Client_BumpSum (PrefixClient P (ForeignClientVal logClient)) k v t log =
       Inr (log @ map (\<lambda>i. BumpSumCall (P ! i @ k) v t) [0..<length P])"
    "Client_BumpAvg (PrefixClient P (ForeignClientVal logClient)) k v t log =
       Inr (log @ map (\<lambda>i. BumpAvgCall (P ! i @ k) v t) [0..<length P])"
    "Client_BumpHistogram (PrefixClient P (ForeignClientVal logClient)) k v t log =
       Inr (log @ map (\<lambda>i. BumpHistogramCall (P ! i @ k) v t) [0..<length P])"
    by (simp_all add: Client_BumpSum_PrefixClient Client_BumpAvg_PrefixClient
        Client_BumpHistogram_PrefixClient logClient_simps call_seq_log
        idx [of "\<lambda>prefix. BumpSumCall (prefix @ k) v t"]
        idx [of "\<lambda>prefix. BumpAvgCall (prefix @ k) v t"]
        idx [of "\<lambda>prefix. BumpHistogramCall (prefix @ k) v t"])
  from gen logs show ?thesis by blast
qed

section \<open>The nil-tolerant free functions\<close>

text \<open>
  C2. With the nil client, \<^verbatim>\<open>BumpAvg\<close>, \<^verbatim>\<open>BumpSum\<close> and \<^verbatim>\<open>BumpHistogram\<close> return
  normally and leave the outside state as it was, whatever it is (no call on any client),
  and \<^verbatim>\<open>BumpTime\<close> returns \<^verbatim>\<open>NoOpEnd\<close>, also without touching the state. With a
  client that is not nil, each free function is the same computation as the method of that
  name on the client, with the key, value and tags it was given, and \<^verbatim>\<open>BumpTime\<close>
  returns what the client's \<^verbatim>\<open>BumpTime\<close> returned.
\<close>

theorem nil_tolerant_helpers:
  "BumpAvg NilClient k v t s = Inr s
   \<and> BumpSum NilClient k v t s = Inr s
   \<and> BumpHistogram NilClient k v t s = Inr s
   \<and> BumpTime NilClient k t s = Inr (NoOpEnd, s)
   \<and> (c \<noteq> NilClient \<longrightarrow>
        BumpAvg c k v t s = Client_BumpAvg c k v t s
      \<and> BumpSum c k v t s = Client_BumpSum c k v t s
      \<and> BumpHistogram c k v t s = Client_BumpHistogram c k v t s
      \<and> BumpTime c k t s = Client_BumpTime c k t s)"
  by (cases c) (simp_all add: BumpAvg_def BumpSum_def BumpHistogram_def BumpTime_def)

theorem nil_tolerant_helpers_witness:
  "ForeignClientVal logClient \<noteq> NilClient
   \<and> BumpAvg (ForeignClientVal logClient) ''latency'' 7 [''region:us''] [] =
       Inr [BumpAvgCall ''latency'' 7 [''region:us'']]
   \<and> BumpSum (ForeignClientVal logClient) ''latency'' 7 [''region:us''] [] =
       Inr [BumpSumCall ''latency'' 7 [''region:us'']]
   \<and> BumpHistogram (ForeignClientVal logClient) ''latency'' 7 [''region:us''] [] =
       Inr [BumpHistogramCall ''latency'' 7 [''region:us'']]
   \<and> BumpTime (ForeignClientVal logClient) ''latency'' [''region:us''] [] =
       Inr (logEnder ''latency'', [BumpTimeCall ''latency'' [''region:us'']])"
  using nil_tolerant_helpers
    [of "''latency''" 7 "[''region:us'']" "[]" "ForeignClientVal logClient"]
  by (simp add: logClient_simps)

section \<open>HookClient\<close>

text \<open>
  C3. For every \<^verbatim>\<open>HookClient\<close> and each of its four methods: when the method's hook
  field is set, the call is the hook applied to the key, value and tags of the call, and
  \<^verbatim>\<open>BumpTime\<close> returns what the hook returned; when the field is nil,
  \<^verbatim>\<open>BumpAvg\<close>, \<^verbatim>\<open>BumpSum\<close> and \<^verbatim>\<open>BumpHistogram\<close> leave the state as it was and
  \<^verbatim>\<open>BumpTime\<close> returns \<^verbatim>\<open>NoOpEnd\<close>.
\<close>

theorem hook_client_contract:
  "(BumpAvgHook c = Some fa \<longrightarrow> HookClient_BumpAvg c k v t s = fa k v t s)
   \<and> (BumpAvgHook c = None \<longrightarrow> HookClient_BumpAvg c k v t s = Inr s)
   \<and> (BumpSumHook c = Some fs \<longrightarrow> HookClient_BumpSum c k v t s = fs k v t s)
   \<and> (BumpSumHook c = None \<longrightarrow> HookClient_BumpSum c k v t s = Inr s)
   \<and> (BumpHistogramHook c = Some fh \<longrightarrow> HookClient_BumpHistogram c k v t s = fh k v t s)
   \<and> (BumpHistogramHook c = None \<longrightarrow> HookClient_BumpHistogram c k v t s = Inr s)
   \<and> (BumpTimeHook c = Some ft \<longrightarrow> HookClient_BumpTime c k t s = ft k t s)
   \<and> (BumpTimeHook c = None \<longrightarrow> HookClient_BumpTime c k t s = Inr (NoOpEnd, s))"
  by (simp add: HookClient_BumpAvg_def HookClient_BumpSum_def HookClient_BumpHistogram_def
      HookClient_BumpTime_def)

theorem hook_client_contract_witness:
  "BumpAvgHook logHooks = Some (ForeignBumpAvg logClient)
   \<and> BumpSumHook logHooks = Some (ForeignBumpSum logClient)
   \<and> BumpHistogramHook logHooks = Some (ForeignBumpHistogram logClient)
   \<and> BumpTimeHook logHooks = Some (ForeignBumpTime logClient)
   \<and> HookClient_BumpAvg logHooks ''latency'' 7 [''region:us''] [] =
       Inr [BumpAvgCall ''latency'' 7 [''region:us'']]
   \<and> HookClient_BumpSum logHooks ''latency'' 7 [''region:us''] [] =
       Inr [BumpSumCall ''latency'' 7 [''region:us'']]
   \<and> HookClient_BumpHistogram logHooks ''latency'' 7 [''region:us''] [] =
       Inr [BumpHistogramCall ''latency'' 7 [''region:us'']]
   \<and> HookClient_BumpTime logHooks ''latency'' [''region:us''] [] =
       Inr (logEnder ''latency'', [BumpTimeCall ''latency'' [''region:us'']])
   \<and> BumpAvgHook (noHooks :: event list HookClient) = None
   \<and> BumpSumHook (noHooks :: event list HookClient) = None
   \<and> BumpHistogramHook (noHooks :: event list HookClient) = None
   \<and> BumpTimeHook (noHooks :: event list HookClient) = None
   \<and> HookClient_BumpAvg noHooks ''latency'' 7 [''region:us''] [EndCall ''x''] =
       Inr [EndCall ''x'']
   \<and> HookClient_BumpSum noHooks ''latency'' 7 [''region:us''] [EndCall ''x''] =
       Inr [EndCall ''x'']
   \<and> HookClient_BumpHistogram noHooks ''latency'' 7 [''region:us''] [EndCall ''x''] =
       Inr [EndCall ''x'']
   \<and> HookClient_BumpTime noHooks ''latency'' [''region:us''] [EndCall ''x''] =
       Inr (NoOpEnd, [EndCall ''x''])"
proof -
  have set: "BumpAvgHook logHooks = Some (ForeignBumpAvg logClient)"
    "BumpSumHook logHooks = Some (ForeignBumpSum logClient)"
    "BumpHistogramHook logHooks = Some (ForeignBumpHistogram logClient)"
    "BumpTimeHook logHooks = Some (ForeignBumpTime logClient)"
    by (simp_all add: logHooks_def)
  have unset: "BumpAvgHook (noHooks :: event list HookClient) = None"
    "BumpSumHook (noHooks :: event list HookClient) = None"
    "BumpHistogramHook (noHooks :: event list HookClient) = None"
    "BumpTimeHook (noHooks :: event list HookClient) = None"
    by (simp_all add: noHooks_def)
  show ?thesis
    using set unset
      hook_client_contract [of logHooks "ForeignBumpAvg logClient" "''latency''" 7
        "[''region:us'']" "[]" "ForeignBumpSum logClient" "ForeignBumpHistogram logClient"
        "ForeignBumpTime logClient"]
      hook_client_contract [of noHooks _ "''latency''" 7 "[''region:us'']" "[EndCall ''x'']"]
    by (simp add: logClient_def)
qed

section \<open>BumpTime through the prefixing decorator\<close>

text \<open>
  C4. \<^verbatim>\<open>BumpTime\<close> through the decorator made from \<open>P\<close> and \<open>c\<close> calls
  \<^verbatim>\<open>BumpTime\<close> on \<open>c\<close> once per prefix, in list order, with the key \<open>P ! i @ k\<close> and
  the tags \<open>t\<close>, and returns one \<^verbatim>\<open>multiEnder\<close> that holds the handles these calls
  returned, in call order; whenever it returns, the \<^verbatim>\<open>multiEnder\<close> holds \<open>length P\<close>
  handles. On the logging backend: the log grows by one \<^verbatim>\<open>BumpTime\<close> entry per prefix
  and the result holds the handle of each.
\<close>

theorem prefix_BumpTime_collects:
  "Client_BumpTime (PrefixClient P c) k t s =
     (case collect_seq (map (\<lambda>i. Client_BumpTime c (P ! i @ k) t) [0..<length P]) s of
        Inl e \<Rightarrow> Inl e
      | Inr (hs, s') \<Rightarrow> Inr (MultiEnder hs, s'))
   \<and> (\<forall>h s'. Client_BumpTime (PrefixClient P c) k t s = Inr (h, s') \<longrightarrow>
         (\<exists>hs. h = MultiEnder hs \<and> length hs = length P))
   \<and> Client_BumpTime (PrefixClient P (ForeignClientVal logClient)) k t log =
       Inr (MultiEnder (map (\<lambda>i. logEnder (P ! i @ k)) [0..<length P]),
            log @ map (\<lambda>i. BumpTimeCall (P ! i @ k) t) [0..<length P])"
proof -
  have idx: "\<And>f. map (\<lambda>i. f (P ! i)) [0..<length P] = map f P"
    by (rule map_by_index)
  have gen: "Client_BumpTime (PrefixClient P c) k t s =
     (case collect_seq (map (\<lambda>i. Client_BumpTime c (P ! i @ k) t) [0..<length P]) s of
        Inl e \<Rightarrow> Inl e
      | Inr (hs, s') \<Rightarrow> Inr (MultiEnder hs, s'))"
    by (simp only: Client_BumpTime_PrefixClient
        idx [of "\<lambda>prefix. Client_BumpTime c (prefix @ k) t"])
  have len: "\<exists>hs. h = MultiEnder hs \<and> length hs = length P"
    if "Client_BumpTime (PrefixClient P c) k t s = Inr (h, s')" for h s'
  proof (cases "collect_seq (map (\<lambda>prefix. Client_BumpTime c (prefix @ k) t) P) s")
    case (Inl e)
    with that show ?thesis by (simp add: Client_BumpTime_PrefixClient)
  next
    case (Inr r)
    obtain hs s1 where r: "r = (hs, s1)" by (cases r)
    from Inr r have "length hs = length P"
      using collect_seq_length by fastforce
    moreover from that Inr r have "h = MultiEnder hs"
      by (simp add: Client_BumpTime_PrefixClient)
    ultimately show ?thesis by blast
  qed
  have logs: "Client_BumpTime (PrefixClient P (ForeignClientVal logClient)) k t log =
       Inr (MultiEnder (map (\<lambda>i. logEnder (P ! i @ k)) [0..<length P]),
            log @ map (\<lambda>i. BumpTimeCall (P ! i @ k) t) [0..<length P])"
    by (simp add: Client_BumpTime_PrefixClient logClient_simps
        collect_seq_log [of "\<lambda>prefix. logEnder (prefix @ k)" "\<lambda>prefix. BumpTimeCall (prefix @ k) t"]
        idx [of "\<lambda>prefix. logEnder (prefix @ k)"]
        idx [of "\<lambda>prefix. BumpTimeCall (prefix @ k) t"])
  from gen len logs show ?thesis by blast
qed

theorem prefix_BumpTime_collects_witness:
  "Client_BumpTime (PrefixClient [''a.'', ''b.''] (ForeignClientVal logClient))
     ''x'' [''t''] [] =
     Inr (MultiEnder [logEnder ''a.x'', logEnder ''b.x''],
          [BumpTimeCall ''a.x'' [''t''], BumpTimeCall ''b.x'' [''t'']])
   \<and> (\<exists>hs. MultiEnder [logEnder ''a.x'', logEnder ''b.x''] = MultiEnder hs
         \<and> length hs = length [''a.'', ''b.''])"
proof -
  have run: "Client_BumpTime (PrefixClient [''a.'', ''b.''] (ForeignClientVal logClient))
     ''x'' [''t''] [] =
     Inr (MultiEnder [logEnder ''a.x'', logEnder ''b.x''],
          [BumpTimeCall ''a.x'' [''t''], BumpTimeCall ''b.x'' [''t'']])"
    by (simp add: PrefixClient_def logClient_def)
  from run prefix_BumpTime_collects
    [of "[''a.'', ''b.'']" "ForeignClientVal logClient" "''x''" "[''t'']" "[]"]
  show ?thesis by blast
qed

section \<open>multiEnder\<close>




section \<open>The empty prefix list\<close>

text \<open>
  C6. When the prefix list of the decorator is empty, \<^verbatim>\<open>BumpAvg\<close>, \<^verbatim>\<open>BumpSum\<close> and
  \<^verbatim>\<open>BumpHistogram\<close> return with the state as it was, for every wrapped client (also one
  whose every method panics, and the nil client): no call is made on it. \<^verbatim>\<open>BumpTime\<close>
  likewise makes no call and returns a \<^verbatim>\<open>multiEnder\<close> that wraps no handle, and
  \<^verbatim>\<open>End\<close> on that handle returns with the state as it was.
\<close>

theorem empty_prefix_list_no_calls:
  "Client_BumpAvg (PrefixClient [] c) k v t s = Inr s
   \<and> Client_BumpSum (PrefixClient [] c) k v t s = Inr s
   \<and> Client_BumpHistogram (PrefixClient [] c) k v t s = Inr s
   \<and> Client_BumpTime (PrefixClient [] c) k t s = Inr (MultiEnder [], s)
   \<and> Ender_End (MultiEnder []) s' = Inr s'"
  by (simp add: PrefixClient_def)

section \<open>NoOpEnd\<close>

text \<open>
  C7. \<^verbatim>\<open>End\<close> on \<^verbatim>\<open>NoOpEnd\<close> returns normally and leaves the state as it was, in
  every state; so do \<open>n\<close> calls in a row, for every \<open>n\<close>.
\<close>

theorem NoOpEnd_End_repeatable:
  "Ender_End NoOpEnd s = Inr s
   \<and> call_seq (replicate n (Ender_End NoOpEnd)) s = Inr s"
proof -
  have "call_seq (replicate n (Ender_End NoOpEnd)) s = Inr s"
    by (induction n) (simp_all add: noOpEnd_End_def)
  then show ?thesis by (simp add: noOpEnd_End_def)
qed

section \<open>Decorators around decorators\<close>

text \<open>
  C8, as claimed, at an input. The claim gives the keys of the calls that reach the
  wrapped client through \<^verbatim>\<open>PrefixClient(P1, PrefixClient(P2, c))\<close> as
  \<open>P1 ! i @ (P2 ! j @ k)\<close>. With \<open>P1 = [''a.'']\<close>, \<open>P2 = [''b.'']\<close> and the key \<open>''x''\<close>
  the logging backend receives the key \<open>''b.a.x''\<close>, not \<open>''a.b.x''\<close>.
\<close>

theorem nested_prefix_keys_counterexample:
  "Client_BumpSum
     (PrefixClient [''a.''] (PrefixClient [''b.''] (ForeignClientVal logClient)))
     ''x'' 1 [] [] = Inr [BumpSumCall ''b.a.x'' 1 []]
   \<and> Client_BumpSum
       (PrefixClient [''a.''] (PrefixClient [''b.''] (ForeignClientVal logClient)))
       ''x'' 1 [] [] \<noteq> Inr [BumpSumCall (''a.'' @ (''b.'' @ ''x'')) 1 []]"
  by (simp add: PrefixClient_def logClient_def)

text \<open>
  C8, amended. One bump call through \<^verbatim>\<open>PrefixClient(P1, PrefixClient(P2, c))\<close> is the
  same computation as \<open>length P1 * length P2\<close> calls of that method on \<open>c\<close>, with the keys
  \<open>P2 ! j @ (P1 ! i @ k)\<close> (the prefix of the inner decorator comes first in the key),
  ordered with \<open>i\<close> outermost, value and tags unchanged. On the logging backend the log
  grows by exactly these entries.
\<close>

theorem nested_prefix_fans_out:
  "Client_BumpSum (PrefixClient P1 (PrefixClient P2 c)) k v t s =
     call_seq (concat (map (\<lambda>i. map (\<lambda>j. Client_BumpSum c (P2 ! j @ (P1 ! i @ k)) v t)
                                   [0..<length P2]) [0..<length P1])) s
   \<and> Client_BumpAvg (PrefixClient P1 (PrefixClient P2 c)) k v t s =
     call_seq (concat (map (\<lambda>i. map (\<lambda>j. Client_BumpAvg c (P2 ! j @ (P1 ! i @ k)) v t)
                                   [0..<length P2]) [0..<length P1])) s
   \<and> Client_BumpHistogram (PrefixClient P1 (PrefixClient P2 c)) k v t s =
     call_seq (concat (map (\<lambda>i. map (\<lambda>j. Client_BumpHistogram c (P2 ! j @ (P1 ! i @ k)) v t)
                                   [0..<length P2]) [0..<length P1])) s
   \<and> length (concat (map (\<lambda>i. map (\<lambda>j. Client_BumpSum c (P2 ! j @ (P1 ! i @ k)) v t)
                                   [0..<length P2]) [0..<length P1]))
       = length P1 * length P2
   \<and> Client_BumpSum (PrefixClient P1 (PrefixClient P2 (ForeignClientVal logClient))) k v t log =
       Inr (log @ concat (map (\<lambda>i. map (\<lambda>j. BumpSumCall (P2 ! j @ (P1 ! i @ k)) v t)
                                   [0..<length P2]) [0..<length P1]))"
proof -
  have sum: "Client_BumpSum (PrefixClient P1 (PrefixClient P2 c)) k v t s =
     call_seq (concat (map (\<lambda>i. map (\<lambda>j. Client_BumpSum c (P2 ! j @ (P1 ! i @ k)) v t)
                                   [0..<length P2]) [0..<length P1])) s"
    by (simp only: Client_BumpSum_PrefixClient Client_BumpSum_PrefixClient_fun
        call_seq_nested [of "\<lambda>p1 p2. Client_BumpSum c (p2 @ (p1 @ k)) v t"]
        nested_by_index [of "\<lambda>p1 p2. Client_BumpSum c (p2 @ (p1 @ k)) v t"])
  have avg: "Client_BumpAvg (PrefixClient P1 (PrefixClient P2 c)) k v t s =
     call_seq (concat (map (\<lambda>i. map (\<lambda>j. Client_BumpAvg c (P2 ! j @ (P1 ! i @ k)) v t)
                                   [0..<length P2]) [0..<length P1])) s"
    by (simp only: Client_BumpAvg_PrefixClient Client_BumpAvg_PrefixClient_fun
        call_seq_nested [of "\<lambda>p1 p2. Client_BumpAvg c (p2 @ (p1 @ k)) v t"]
        nested_by_index [of "\<lambda>p1 p2. Client_BumpAvg c (p2 @ (p1 @ k)) v t"])
  have hist: "Client_BumpHistogram (PrefixClient P1 (PrefixClient P2 c)) k v t s =
     call_seq (concat (map (\<lambda>i. map (\<lambda>j. Client_BumpHistogram c (P2 ! j @ (P1 ! i @ k)) v t)
                                   [0..<length P2]) [0..<length P1])) s"
    by (simp only: Client_BumpHistogram_PrefixClient Client_BumpHistogram_PrefixClient_fun
        call_seq_nested [of "\<lambda>p1 p2. Client_BumpHistogram c (p2 @ (p1 @ k)) v t"]
        nested_by_index [of "\<lambda>p1 p2. Client_BumpHistogram c (p2 @ (p1 @ k)) v t"])
  have len: "length (concat (map (\<lambda>i. map (\<lambda>j. Client_BumpSum c (P2 ! j @ (P1 ! i @ k)) v t)
                                   [0..<length P2]) [0..<length P1]))
       = length P1 * length P2"
    by (rule length_nested)
  have "Client_BumpSum (PrefixClient P1 (PrefixClient P2 (ForeignClientVal logClient))) k v t log =
     call_seq (concat (map (\<lambda>p1. map (\<lambda>p2.
        Client_BumpSum (ForeignClientVal logClient) (p2 @ (p1 @ k)) v t) P2) P1)) log"
    by (simp only: Client_BumpSum_PrefixClient Client_BumpSum_PrefixClient_fun
        call_seq_nested
          [of "\<lambda>p1 p2. Client_BumpSum (ForeignClientVal logClient) (p2 @ (p1 @ k)) v t"])
  also have "\<dots> =
     call_seq (concat (map (\<lambda>p1. map (\<lambda>p2 log.
        Inr (log @ [BumpSumCall (p2 @ (p1 @ k)) v t])) P2) P1)) log"
    by (simp only: logClient_simps)
  also have "\<dots> = Inr (log @ concat (map (\<lambda>p1. map (\<lambda>p2. BumpSumCall (p2 @ (p1 @ k)) v t) P2) P1))"
    by (rule call_seq_log_nested)
  also have "concat (map (\<lambda>p1. map (\<lambda>p2. BumpSumCall (p2 @ (p1 @ k)) v t) P2) P1) =
      concat (map (\<lambda>i. map (\<lambda>j. BumpSumCall (P2 ! j @ (P1 ! i @ k)) v t)
                                   [0..<length P2]) [0..<length P1])"
    by (rule nested_by_index [of "\<lambda>p1 p2. BumpSumCall (p2 @ (p1 @ k)) v t", symmetric])
  finally have logs:
    "Client_BumpSum (PrefixClient P1 (PrefixClient P2 (ForeignClientVal logClient))) k v t log =
       Inr (log @ concat (map (\<lambda>i. map (\<lambda>j. BumpSumCall (P2 ! j @ (P1 ! i @ k)) v t)
                                   [0..<length P2]) [0..<length P1]))" .
  from sum avg hist len logs show ?thesis by blast
qed

section \<open>The decorator's own state\<close>




section \<open>A nil handle is passed on as it is\<close>

text \<open>
  C10. \<^verbatim>\<open>NoOpEnd\<close> is put in only for a nil client or a nil hook. When a client that
  is not nil returns the nil handle from \<^verbatim>\<open>BumpTime\<close>, the free function
  \<^verbatim>\<open>BumpTime\<close> returns the nil handle; when the hook of a \<^verbatim>\<open>HookClient\<close> is set
  and returns the nil handle, so does \<^verbatim>\<open>HookClient.BumpTime\<close>. There is such a
  client, and the nil handle is not \<^verbatim>\<open>NoOpEnd\<close>.
\<close>

theorem nil_handle_passed_through:
  "(c \<noteq> NilClient \<and> Client_BumpTime c k t (s :: 's) = Inr (NilEnder, s') \<longrightarrow>
      BumpTime c k t s = Inr (NilEnder, s'))
   \<and> (BumpTimeHook hc = Some hook \<and> hook k t s = Inr (NilEnder, s') \<longrightarrow>
      HookClient_BumpTime hc k t s = Inr (NilEnder, s'))
   \<and> (\<exists>c'. c' \<noteq> NilClient \<and> Client_BumpTime c' k t s = Inr (NilEnder, s)
         \<and> BumpTime c' k t s = Inr (NilEnder, s))
   \<and> (NilEnder :: 's Ender) \<noteq> NoOpEnd"
proof -
  have free: "BumpTime c k t s = Inr (NilEnder, s')"
    if "c \<noteq> NilClient" "Client_BumpTime c k t s = Inr (NilEnder, s')"
    using that by (cases c) (simp_all add: BumpTime_def)
  have hook: "HookClient_BumpTime hc k t s = Inr (NilEnder, s')"
    if "BumpTimeHook hc = Some hook" "hook k t s = Inr (NilEnder, s')"
    using that by (simp add: HookClient_BumpTime_def)
  let ?c = "HookClientPtr (Some nilTimeHooks) :: 's Client"
  have "?c \<noteq> NilClient \<and> Client_BumpTime ?c k t s = Inr (NilEnder, s)
      \<and> BumpTime ?c k t s = Inr (NilEnder, s)"
    by (simp add: BumpTime_def HookClient_BumpTime_def nilTimeHooks_def nilTimeHook_def)
  then have ex: "\<exists>c'. c' \<noteq> NilClient \<and> Client_BumpTime c' k t s = Inr (NilEnder, s)
         \<and> BumpTime c' k t s = Inr (NilEnder, s)" by blast
  from free hook ex show ?thesis by blast
qed

theorem nil_handle_passed_through_witness:
  "HookClientPtr (Some nilTimeHooks) \<noteq> (NilClient :: event list Client)
   \<and> Client_BumpTime (HookClientPtr (Some nilTimeHooks)) ''x'' [] ([] :: event list) =
       Inr (NilEnder, [])
   \<and> BumpTime (HookClientPtr (Some nilTimeHooks)) ''x'' [] ([] :: event list) =
       Inr (NilEnder, [])
   \<and> BumpTimeHook (nilTimeHooks :: event list HookClient) = Some nilTimeHook
   \<and> nilTimeHook ''x'' [] ([] :: event list) = Inr (NilEnder, [])
   \<and> HookClient_BumpTime nilTimeHooks ''x'' [] ([] :: event list) = Inr (NilEnder, [])"
proof -
  have hyps: "HookClientPtr (Some nilTimeHooks) \<noteq> (NilClient :: event list Client)"
    "Client_BumpTime (HookClientPtr (Some nilTimeHooks)) ''x'' [] ([] :: event list) =
       Inr (NilEnder, [])"
    "BumpTimeHook (nilTimeHooks :: event list HookClient) = Some nilTimeHook"
    "nilTimeHook ''x'' [] ([] :: event list) = Inr (NilEnder, [])"
    by (simp_all add: HookClient_BumpTime_def nilTimeHooks_def nilTimeHook_def)
  with nil_handle_passed_through
    [of "HookClientPtr (Some nilTimeHooks)" "''x''" "[]" "[] :: event list" "[]"
        nilTimeHooks nilTimeHook]
  show ?thesis by blast
qed

end
